theory Spec2Isabelle
  imports Main "HOL-Library.Log_Nat"
begin

datatype double = Fin rat | PInf | NInf | NaN

definition ilog2 :: "rat \<Rightarrow> int" where
  "ilog2 q = (if 1 \<le> q then bitlen \<lfloor>q\<rfloor> - 1 else - bitlen (\<lceil>1 / q\<rceil> - 1))"

definition round_half_even :: "rat \<Rightarrow> int" where
  "round_half_even x =
     (let f = \<lfloor>x\<rfloor>; d = x - of_int f
      in if d < 1 / 2 then f else if 1 / 2 < d then f + 1 else if even f then f else f + 1)"

definition round64_pos :: "rat \<Rightarrow> double" where
  "round64_pos q =
     (let e = max (ilog2 q - 52) (- 1074);
          r = of_int (round_half_even (q / 2 powi e)) * 2 powi e
      in if 2 powi 1024 \<le> r then PInf else Fin r)"

fun fneg :: "double \<Rightarrow> double" where
  "fneg (Fin a) = Fin (- a)"
| "fneg PInf = NInf"
| "fneg NInf = PInf"
| "fneg NaN = NaN"

definition round64 :: "rat \<Rightarrow> double" where
  "round64 q = (if q = 0 then Fin 0 else if 0 < q then round64_pos q else fneg (round64_pos (- q)))"

definition is_double :: "double \<Rightarrow> bool" where
  "is_double x = (case x of Fin r \<Rightarrow> round64 r = Fin r | PInf \<Rightarrow> True | NInf \<Rightarrow> True | NaN \<Rightarrow> True)"

fun fadd :: "double \<Rightarrow> double \<Rightarrow> double" where
  "fadd (Fin a) (Fin b) = round64 (a + b)"
| "fadd NaN y = NaN"
| "fadd x NaN = NaN"
| "fadd PInf NInf = NaN"
| "fadd NInf PInf = NaN"
| "fadd PInf y = PInf"
| "fadd x PInf = PInf"
| "fadd NInf y = NInf"
| "fadd x NInf = NInf"

definition fsub :: "double \<Rightarrow> double \<Rightarrow> double" where
  "fsub x y = fadd x (fneg y)"

fun fmul :: "double \<Rightarrow> double \<Rightarrow> double" where
  "fmul (Fin a) (Fin b) = round64 (a * b)"
| "fmul NaN y = NaN"
| "fmul x NaN = NaN"
| "fmul (Fin a) PInf = (if a = 0 then NaN else if 0 < a then PInf else NInf)"
| "fmul (Fin a) NInf = (if a = 0 then NaN else if 0 < a then NInf else PInf)"
| "fmul PInf (Fin b) = (if b = 0 then NaN else if 0 < b then PInf else NInf)"
| "fmul NInf (Fin b) = (if b = 0 then NaN else if 0 < b then NInf else PInf)"
| "fmul PInf PInf = PInf"
| "fmul PInf NInf = NInf"
| "fmul NInf PInf = NInf"
| "fmul NInf NInf = PInf"

fun flt :: "double \<Rightarrow> double \<Rightarrow> bool" where
  "flt (Fin a) (Fin b) = (a < b)"
| "flt NaN y = False"
| "flt x NaN = False"
| "flt x NInf = False"
| "flt PInf y = False"
| "flt NInf y = True"
| "flt x PInf = True"

fun fle :: "double \<Rightarrow> double \<Rightarrow> bool" where
  "fle (Fin a) (Fin b) = (a \<le> b)"
| "fle NaN y = False"
| "fle x NaN = False"
| "fle NInf y = True"
| "fle x PInf = True"
| "fle PInf y = False"
| "fle x NInf = False"

definition fgt :: "double \<Rightarrow> double \<Rightarrow> bool" where
  "fgt x y = flt y x"

definition fge :: "double \<Rightarrow> double \<Rightarrow> bool" where
  "fge x y = fle y x"

definition py_decimal :: "nat \<Rightarrow> nat \<Rightarrow> double" where
  "py_decimal digits places = round64 (of_nat digits / 10 ^ places)"

definition py_sum :: "double list \<Rightarrow> double" where
  "py_sum xs = foldl fadd (Fin 0) xs"

definition digit_char :: "nat \<Rightarrow> char" where
  "digit_char d = char_of (48 + d)"

fun str_nat :: "nat \<Rightarrow> string" where
  "str_nat n = (if n < 10 then [digit_char n] else str_nat (n div 10) @ [digit_char (n mod 10)])"

definition format_fixed2 :: "rat \<Rightarrow> string" where
  "format_fixed2 r =
     (let n = nat (round_half_even (\<bar>r\<bar> * 100))
      in (if r < 0 then ''-'' else '''') @ str_nat (n div 100) @ ''.''
           @ [digit_char (n div 10 mod 10), digit_char (n mod 10)])"

definition format_percent2 :: "double \<Rightarrow> string" where
  "format_percent2 x =
     (case fmul x (Fin 100) of
        Fin r \<Rightarrow> format_fixed2 r @ ''%''
      | PInf \<Rightarrow> ''inf%''
      | NInf \<Rightarrow> ''-inf%''
      | NaN \<Rightarrow> ''nan%'')"

definition py_isspace :: "char \<Rightarrow> bool" where
  "py_isspace c = (of_char c \<in> {9, 10, 11, 12, 13, 28, 29, 30, 31, 32, 133, 160 :: nat})"

definition strip :: "string \<Rightarrow> string" where
  "strip s = rev (dropWhile py_isspace (rev (dropWhile py_isspace s)))"

definition lower_char :: "char \<Rightarrow> char" where
  "lower_char c =
     (let n = of_char c :: nat
      in if (65 \<le> n \<and> n \<le> 90) \<or> (192 \<le> n \<and> n \<le> 222 \<and> n \<noteq> 215)
         then char_of (n + 32) else c)"

definition lower :: "string \<Rightarrow> string" where
  "lower s = map lower_char s"

fun split_from :: "string \<Rightarrow> string \<Rightarrow> string list" where
  "split_from cur [] = [rev cur]"
| "split_from cur (c # cs) =
     (if c = CHR 0x0A then rev cur # split_from [] cs else split_from (c # cur) cs)"

definition split_lines :: "string \<Rightarrow> string list" where
  "split_lines text = split_from [] text"

definition replace_char :: "char \<Rightarrow> string \<Rightarrow> string \<Rightarrow> string" where
  "replace_char old new s = concat (map (\<lambda>c. if c = old then new else [c]) s)"

definition is_digit :: "char \<Rightarrow> bool" where
  "is_digit c = (48 \<le> (of_char c :: nat) \<and> (of_char c :: nat) \<le> 57)"

definition re_class :: "char \<Rightarrow> bool" where
  "re_class c = (is_digit c \<or> c = CHR ''.'' \<or> c = CHR '','')"

definition re_search :: "string \<Rightarrow> string option" where
  "re_search text =
     (case dropWhile (\<lambda>c. \<not> re_class c) text of
        [] \<Rightarrow> None
      | c # cs \<Rightarrow> Some (takeWhile re_class (c # cs)))"

definition digits_val :: "string \<Rightarrow> nat" where
  "digits_val ds = foldl (\<lambda>n c. 10 * n + (of_char c - 48)) 0 ds"

definition py_float :: "string \<Rightarrow> double option" where
  "py_float s =
     (let ip = takeWhile is_digit s
      in case dropWhile is_digit s of
           [] \<Rightarrow> if ip = [] then None else Some (py_decimal (digits_val ip) 0)
         | c # fp \<Rightarrow>
             if c = CHR ''.'' \<and> list_all is_digit fp \<and> (ip \<noteq> [] \<or> fp \<noteq> [])
             then Some (py_decimal (digits_val (ip @ fp)) (length fp))
             else None)"

definition clean_currency :: "string option \<Rightarrow> double" where
  "clean_currency text =
     (case text of
        None \<Rightarrow> Fin 0
      | Some t \<Rightarrow>
          if t = [] then Fin 0
          else (case re_search t of
                  Some m \<Rightarrow>
                    (let value_str = replace_char (CHR '','') ''.'' (replace_char (CHR ''.'') '''' m)
                     in case py_float value_str of Some v \<Rightarrow> v | None \<Rightarrow> Fin 0)
                | None \<Rightarrow> Fin 0))"

fun replace_first :: "char \<Rightarrow> string \<Rightarrow> string \<Rightarrow> string" where
  "replace_first old new [] = []"
| "replace_first old new (c # cs) = (if c = old then new @ cs else c # replace_first old new cs)"

definition normalize_spec :: "string option \<Rightarrow> double" where
  "normalize_spec text =
     (case text of
        None \<Rightarrow> Fin 0
      | Some t \<Rightarrow>
          (case re_search t of
             None \<Rightarrow> Fin 0
           | Some run \<Rightarrow>
               (case py_float (replace_first (CHR '','') ''.'' (filter (\<lambda>c. c \<noteq> CHR ''.'') run)) of
                  None \<Rightarrow> Fin 0
                | Some v \<Rightarrow> v)))"

record nota =
  PIS_Retido :: double
  COFINS_Retido :: double
  CSLL_Retido :: double
  IRRF_Retido :: double
  INSS_Retido :: double
  ISS_Retido :: double

record linha =
  Aliquota :: string
  Valor_Bruto_a_Pagar :: double
  Total_Retido :: double
  Valor_Liquido_a_Pagar :: double

definition dict_get :: "('k \<rightharpoonup> 'v) \<Rightarrow> 'k \<Rightarrow> 'v \<Rightarrow> 'v" where
  "dict_get d k dflt = (case d k of None \<Rightarrow> dflt | Some v \<Rightarrow> v)"

definition ALIQUOTAS :: "(string \<times> double) list" where
  "ALIQUOTAS =
     [(''PIS'', py_decimal 65 4), (''COFINS'', py_decimal 3 2), (''IRPJ'', py_decimal 12 3),
      (''CSLL'', py_decimal 108 4), (''ISS'', py_decimal 5 2)]"

definition total_retencoes :: "nota list \<Rightarrow> (string \<rightharpoonup> double)" where
  "total_retencoes dados_extraidos =
     [''PIS'' \<mapsto> py_sum (map PIS_Retido dados_extraidos),
      ''COFINS'' \<mapsto> py_sum (map COFINS_Retido dados_extraidos),
      ''CSLL'' \<mapsto> py_sum (map CSLL_Retido dados_extraidos),
      ''IRRF'' \<mapsto> py_sum (map IRRF_Retido dados_extraidos),
      ''INSS'' \<mapsto> py_sum (map INSS_Retido dados_extraidos),
      ''ISS'' \<mapsto> py_sum (map ISS_Retido dados_extraidos)]"

definition linha_imposto :: "(string \<rightharpoonup> double) \<Rightarrow> double \<Rightarrow> string \<Rightarrow> double \<Rightarrow> linha" where
  "linha_imposto totais faturamento_mensal imposto aliquota =
     (let valor_bruto = fmul faturamento_mensal aliquota;
          chave_retencao = (if imposto = ''IRPJ'' then ''IRRF'' else imposto);
          total_retido = dict_get totais chave_retencao (Fin 0);
          valor_liquido = fsub valor_bruto total_retido
      in \<lparr>Aliquota = format_percent2 aliquota, Valor_Bruto_a_Pagar = valor_bruto,
          Total_Retido = total_retido, Valor_Liquido_a_Pagar = valor_liquido\<rparr>)"

definition calcular_impostos_finais :: "nota list \<Rightarrow> double \<Rightarrow> (string \<rightharpoonup> linha) \<times> double" where
  "calcular_impostos_finais dados_extraidos faturamento_mensal =
     (let totais = total_retencoes dados_extraidos;
          resultado_final =
            fold (\<lambda>(imposto, aliquota) resultado.
                    resultado(imposto \<mapsto> linha_imposto totais faturamento_mensal imposto aliquota))
              ALIQUOTAS Map.empty
      in (resultado_final, dict_get totais ''INSS'' (Fin 0)))"

definition anchor_map :: "(string \<times> string) list" where
  "anchor_map =
     [(''numero_nota'', ''N'' @ [CHR 0xFA] @ ''mero da NFS-e''),
      (''data_emissao'', ''Data e Hora de Emiss'' @ [CHR 0xE3] @ ''o da NFS-e''),
      (''cnpj_tomador'', ''CPF/CNPJ/Documento''),
      (''razao_social_tomador'', ''Nome/Raz'' @ [CHR 0xE3] @ ''o Social''),
      (''iss_retido_check'', ''ISS Retido''),
      (''valor_iss'', ''Total do ISS''),
      (''valor_pis'', ''PIS''),
      (''valor_cofins'', ''COFINS''),
      (''valor_csll'', ''CSLL''),
      (''valor_irrf'', ''IRRF''),
      (''valor_inss'', ''INSS'')]"

definition scan_line :: "string list \<Rightarrow> nat \<Rightarrow> (string \<rightharpoonup> string) \<Rightarrow> (string \<rightharpoonup> string)" where
  "scan_line lines i invoice_data =
     fold (\<lambda>(key, anchor) d.
             if lower (strip anchor) = lower (strip (lines ! i)) \<and> i + 1 < length lines
             then d(key \<mapsto> strip (lines ! (i + 1))) else d)
       anchor_map invoice_data"

definition scan_page :: "string list \<Rightarrow> (string \<rightharpoonup> string)" where
  "scan_page lines = fold (scan_line lines) [0..<length lines] Map.empty"

definition page_nota :: "string \<Rightarrow> nota option" where
  "page_nota page_text =
     (let lines = split_lines page_text;
          invoice_data = scan_page lines;
          pis = clean_currency (invoice_data ''valor_pis'');
          cofins = clean_currency (invoice_data ''valor_cofins'');
          csll = clean_currency (invoice_data ''valor_csll'');
          irrf = clean_currency (invoice_data ''valor_irrf'');
          inss = clean_currency (invoice_data ''valor_inss'');
          iss = clean_currency (invoice_data ''valor_iss'');
          iss_retido = (CHR ''1'' \<in> set (dict_get invoice_data ''iss_retido_check'' ''''));
          valor_final_iss = (if iss_retido then iss else Fin 0)
      in if fgt pis (Fin 0) \<or> fgt cofins (Fin 0) \<or> fgt csll (Fin 0) \<or> fgt irrf (Fin 0)
            \<or> fgt inss (Fin 0) \<or> iss_retido
         then Some \<lparr>PIS_Retido = pis, COFINS_Retido = cofins, CSLL_Retido = csll,
                    IRRF_Retido = irrf, INSS_Retido = inss, ISS_Retido = valor_final_iss\<rparr>
         else None)"

definition extract_data_from_pdf :: "string list \<Rightarrow> nota list" where
  "extract_data_from_pdf pages =
     foldl (\<lambda>invoices_with_retention page_text.
              case page_nota page_text of
                Some n \<Rightarrow> invoices_with_retention @ [n]
              | None \<Rightarrow> invoices_with_retention)
       [] pages"

definition nota_exemplo :: nota where
  "nota_exemplo =
     \<lparr>PIS_Retido = Fin 10, COFINS_Retido = Fin 20, CSLL_Retido = Fin 5, IRRF_Retido = Fin 15,
      INSS_Retido = Fin 8, ISS_Retido = Fin 50\<rparr>"

definition so_INSS_difere :: "nota \<Rightarrow> nota \<Rightarrow> bool" where
  "so_INSS_difere a b = (b = a\<lparr>INSS_Retido := INSS_Retido b\<rparr>)"

lemma ilog2_lower:
  assumes "0 < q"
  shows "2 powi (ilog2 q) \<le> q"
proof (cases "1 \<le> q")
  case True
  then have pos: "0 < \<lfloor>q\<rfloor>" by linarith
  have b1: "1 \<le> bitlen \<lfloor>q\<rfloor>"
    using pos bitlen_eq_zero_iff [of "\<lfloor>q\<rfloor>"] bitlen_nonneg [of "\<lfloor>q\<rfloor>"] by linarith
  have "(2::int) ^ nat (bitlen \<lfloor>q\<rfloor> - 1) \<le> \<lfloor>q\<rfloor>"
    using bitlen_bounds [OF pos] by simp
  then have "(of_int ((2::int) ^ nat (bitlen \<lfloor>q\<rfloor> - 1)) :: rat) \<le> of_int \<lfloor>q\<rfloor>"
    by (rule iffD2 [OF of_int_le_iff])
  then have "(2::rat) ^ nat (bitlen \<lfloor>q\<rfloor> - 1) \<le> of_int \<lfloor>q\<rfloor>" by simp
  also have "\<dots> \<le> q" by simp
  finally show ?thesis using True b1 by (simp add: ilog2_def power_int_def)
next
  case False
  define c where "c = \<lceil>1 / q\<rceil>"
  define k where "k = bitlen (c - 1)"
  have b: "1 < 1 / q" using False assms by (simp add: field_simps)
  then have c2: "2 \<le> c" unfolding c_def by linarith
  then have pos: "0 < c - 1" by simp
  have kn: "0 \<le> k" unfolding k_def by (rule bitlen_nonneg)
  have "c - 1 < 2 ^ nat k" using bitlen_bounds [OF pos] by (simp add: k_def)
  then have "c \<le> 2 ^ nat k" by simp
  then have "(of_int c :: rat) \<le> of_int (2 ^ nat k)" by (rule iffD2 [OF of_int_le_iff])
  then have "(of_int c :: rat) \<le> 2 ^ nat k" by simp
  moreover have "1 / q \<le> of_int c" unfolding c_def by simp
  ultimately have "1 / q \<le> 2 ^ nat k" by linarith
  then have "1 / 2 ^ nat k \<le> q" using assms by (simp add: field_simps)
  moreover have "ilog2 q = - k" using False by (simp add: ilog2_def k_def c_def)
  moreover have "(2::rat) powi (- k) = 1 / 2 ^ nat k"
    using kn by (simp add: power_int_minus_divide power_int_nonneg_exp)
  ultimately show ?thesis by simp
qed

lemma ilog2_upper:
  assumes "0 < q"
  shows "q < 2 powi (ilog2 q + 1)"
proof (cases "1 \<le> q")
  case True
  then have pos: "0 < \<lfloor>q\<rfloor>" by linarith
  have b1: "1 \<le> bitlen \<lfloor>q\<rfloor>"
    using pos bitlen_eq_zero_iff [of "\<lfloor>q\<rfloor>"] bitlen_nonneg [of "\<lfloor>q\<rfloor>"] by linarith
  have "\<lfloor>q\<rfloor> < 2 ^ nat (bitlen \<lfloor>q\<rfloor>)"
    using bitlen_bounds [OF pos] by simp
  then have "\<lfloor>q\<rfloor> + 1 \<le> 2 ^ nat (bitlen \<lfloor>q\<rfloor>)" by simp
  then have "(of_int (\<lfloor>q\<rfloor> + 1) :: rat) \<le> of_int (2 ^ nat (bitlen \<lfloor>q\<rfloor>))"
    by (rule iffD2 [OF of_int_le_iff])
  then have "(of_int \<lfloor>q\<rfloor> + 1 :: rat) \<le> 2 ^ nat (bitlen \<lfloor>q\<rfloor>)" by simp
  moreover have "q < of_int \<lfloor>q\<rfloor> + 1" by linarith
  ultimately have "q < 2 ^ nat (bitlen \<lfloor>q\<rfloor>)" by linarith
  then show ?thesis using True b1 by (simp add: ilog2_def power_int_def)
next
  case False
  define c where "c = \<lceil>1 / q\<rceil>"
  define k where "k = bitlen (c - 1)"
  have b: "1 < 1 / q" using False assms by (simp add: field_simps)
  then have c2: "2 \<le> c" unfolding c_def by linarith
  then have pos: "0 < c - 1" by simp
  have k1: "1 \<le> k"
    using pos bitlen_eq_zero_iff [of "c - 1"] bitlen_nonneg [of "c - 1"] unfolding k_def by linarith
  have "2 ^ nat (k - 1) \<le> c - 1" using bitlen_bounds [OF pos] by (simp add: k_def)
  then have "(of_int (2 ^ nat (k - 1)) :: rat) \<le> of_int (c - 1)" by (rule iffD2 [OF of_int_le_iff])
  then have "(2 ^ nat (k - 1) :: rat) \<le> of_int c - 1" by simp
  moreover have "of_int c - 1 < 1 / q" unfolding c_def by linarith
  ultimately have "2 ^ nat (k - 1) < 1 / q" by linarith
  then have "q < 1 / 2 ^ nat (k - 1)" using assms by (simp add: field_simps)
  moreover have "ilog2 q = - k" using False by (simp add: ilog2_def k_def c_def)
  moreover have "(2::rat) powi (- k + 1) = 1 / 2 ^ nat (k - 1)"
    using k1 by (simp add: power_int_def field_simps)
  ultimately show ?thesis by simp
qed

lemma pow2_less_cancel:
  assumes "(2::rat) powi a < 2 powi b"
  shows "a < b"
proof (rule ccontr)
  assume "\<not> a < b"
  then have "b \<le> a" by simp
  then have "(2::rat) powi b \<le> 2 powi a" by (rule power_int_increasing) simp
  with assms show False by simp
qed

lemma ilog2_unique:
  assumes "2 powi k \<le> q" and "q < 2 powi (k + 1)"
  shows "ilog2 q = k"
proof -
  have q: "0 < q" using assms(1) zero_less_power_int [of "2::rat" k] by linarith
  have "(2::rat) powi k < 2 powi (ilog2 q + 1)" using assms(1) ilog2_upper [OF q] by linarith
  then have a: "k < ilog2 q + 1" by (rule pow2_less_cancel)
  have "(2::rat) powi (ilog2 q) < 2 powi (k + 1)" using assms(2) ilog2_lower [OF q] by linarith
  then have b: "ilog2 q < k + 1" by (rule pow2_less_cancel)
  from a b show ?thesis by simp
qed


lemma round_half_even_of_int: "round_half_even (of_int k) = k"
  by (simp add: round_half_even_def)

lemma round_half_even_nonneg:
  assumes "0 \<le> x"
  shows "0 \<le> round_half_even x"
proof -
  have "0 \<le> \<lfloor>x\<rfloor>" using assms by simp
  then show ?thesis by (simp add: round_half_even_def Let_def)
qed

lemma round_half_even_le:
  assumes "x \<le> of_int n"
  shows "round_half_even x \<le> n"
proof (cases "x = of_int \<lfloor>x\<rfloor>")
  case True
  then have "round_half_even x = \<lfloor>x\<rfloor>"
    using round_half_even_of_int [of "\<lfloor>x\<rfloor>"] by simp
  moreover have "\<lfloor>x\<rfloor> \<le> n" using assms by (simp add: floor_le_iff)
  ultimately show ?thesis by simp
next
  case False
  then have "of_int \<lfloor>x\<rfloor> < x" using of_int_floor_le [of x] by linarith
  then have "of_int \<lfloor>x\<rfloor> < (of_int n :: rat)" using assms by linarith
  then have "\<lfloor>x\<rfloor> < n" by simp
  then show ?thesis by (simp add: round_half_even_def Let_def)
qed

lemma ilog2_int_pow:
  assumes "0 < m"
  shows "ilog2 (of_int m * 2 powi e) = bitlen m - 1 + e"
proof (rule ilog2_unique)
  have b1: "1 \<le> bitlen m"
    using assms bitlen_eq_zero_iff [of m] bitlen_nonneg [of m] by linarith
  have lo: "2 ^ nat (bitlen m - 1) \<le> m" and hi: "m < 2 ^ nat (bitlen m)"
    using bitlen_bounds [OF assms] by simp_all
  have "(of_int (2 ^ nat (bitlen m - 1)) :: rat) \<le> of_int m"
    using lo by (rule iffD2 [OF of_int_le_iff])
  then have "(2::rat) powi (bitlen m - 1) \<le> of_int m"
    using b1 by (simp add: power_int_nonneg_exp)
  then have "(2::rat) powi (bitlen m - 1) * 2 powi e \<le> of_int m * 2 powi e"
    by (simp add: mult_right_mono)
  then show "(2::rat) powi (bitlen m - 1 + e) \<le> of_int m * 2 powi e"
    by (simp add: power_int_add)
  have "(of_int m :: rat) < of_int (2 ^ nat (bitlen m))"
    using hi by (rule iffD2 [OF of_int_less_iff])
  then have "(of_int m :: rat) < 2 powi (bitlen m)"
    using b1 by (simp add: power_int_nonneg_exp)
  then have "of_int m * 2 powi e < (2::rat) powi (bitlen m) * 2 powi e"
    by (simp add: mult_strict_right_mono)
  then show "of_int m * 2 powi e < (2::rat) powi (bitlen m - 1 + e + 1)"
    by (simp add: power_int_add)
qed

lemma round64_pos_exact:
  assumes r: "r = of_int j * 2 powi (max (ilog2 r - 52) (- 1074))"
    and lt: "r < 2 powi 1024"
  shows "round64_pos r = Fin r"
proof -
  define e where "e = max (ilog2 r - 52) (- 1074)"
  have "r / 2 powi e = of_int j * 2 powi e / 2 powi e" using r by (simp add: e_def)
  then have "r / 2 powi e = of_int j" by simp
  then have "of_int (round_half_even (r / 2 powi e)) * 2 powi e = r"
    using r by (simp add: round_half_even_of_int e_def)
  then show ?thesis using lt by (simp add: round64_pos_def Let_def e_def)
qed

lemma round64_pos_repr:
  assumes m: "0 < m" "m \<le> 2 ^ 53" and e: "- 1074 \<le> e"
    and lt: "of_int m * 2 powi e < (2::rat) powi 1024"
  shows "round64_pos (of_int m * 2 powi e) = Fin (of_int m * 2 powi e)"
proof -
  define r :: rat where "r = of_int m * 2 powi e"
  have il: "ilog2 r = bitlen m - 1 + e" unfolding r_def using m(1) by (rule ilog2_int_pow)
  define e' where "e' = max (ilog2 r - 52) (- 1074)"
  have "\<exists>j. r = of_int j * 2 powi e'"
  proof (cases "m = 2 ^ 53")
    case True
    have "bitlen (2 ^ 53) = 54" by code_simp
    then have "bitlen m = 54" using True by simp
    then have e': "e' = e + 1" using e by (simp add: e'_def il)
    have "r = of_int (2 ^ 52) * 2 powi (e + 1)"
      unfolding r_def True by (simp add: power_int_add)
    then show ?thesis unfolding e' by blast
  next
    case False
    then have "m < 2 ^ 53" using m(2) by simp
    then have "bitlen m \<le> 53" using bitlen_le_iff_power [of m 53] by simp
    then have le: "e' \<le> e" using e by (simp add: e'_def il)
    have "(2::rat) powi e = 2 powi (e - e') * 2 powi e'"
      by (simp flip: power_int_add)
    also have "(2::rat) powi (e - e') = of_int (2 ^ nat (e - e'))"
      using le by (simp add: power_int_nonneg_exp)
    finally have "r = of_int (m * 2 ^ nat (e - e')) * 2 powi e'"
      unfolding r_def by simp
    then show ?thesis by blast
  qed
  then obtain j where "r = of_int j * 2 powi e'" by blast
  then have "round64_pos r = Fin r"
    using lt unfolding e'_def r_def [symmetric] by (rule round64_pos_exact)
  then show ?thesis by (simp add: r_def)
qed

lemma round64_pos_form:
  assumes "0 < q" and "round64_pos q = Fin r"
  shows "\<exists>m e. r = of_int m * 2 powi e \<and> 0 \<le> m \<and> m \<le> 2 ^ 53 \<and> - 1074 \<le> e \<and> r < 2 powi 1024"
proof -
  define e where "e = max (ilog2 q - 52) (- 1074)"
  define m where "m = round_half_even (q / 2 powi e)"
  have r: "r = of_int m * 2 powi e" and lt: "r < 2 powi 1024"
    using assms(2) by (auto simp: round64_pos_def Let_def e_def m_def split: if_splits)
  have "0 \<le> q / 2 powi e" using assms(1) by simp
  then have m0: "0 \<le> m" unfolding m_def by (rule round_half_even_nonneg)
  have "ilog2 q + 1 \<le> e + 53" by (simp add: e_def)
  then have "(2::rat) powi (ilog2 q + 1) \<le> 2 powi (e + 53)" by (rule power_int_increasing) simp
  then have "q < 2 powi (e + 53)" using ilog2_upper [OF assms(1)] by linarith
  then have "q < 2 powi e * 2 ^ 53" by (simp add: power_int_add)
  then have "q / 2 powi e < 2 ^ 53" by (simp add: field_simps)
  then have "q / 2 powi e \<le> of_int (2 ^ 53)" by simp
  then have m1: "m \<le> 2 ^ 53" unfolding m_def by (rule round_half_even_le)
  have "- 1074 \<le> e" by (simp add: e_def)
  with r lt m0 m1 show ?thesis by blast
qed

lemma round64_pos_idem:
  assumes "0 < q" and "round64_pos q = Fin r" and "r \<noteq> 0"
  shows "round64_pos r = Fin r"
proof -
  obtain m e where *: "r = of_int m * 2 powi e" "0 \<le> m" "m \<le> 2 ^ 53" "- 1074 \<le> e"
    "r < 2 powi 1024"
    using round64_pos_form [OF assms(1,2)] by blast
  have "0 < m" using *(1,2) assms(3) by (cases "m = 0") auto
  then show ?thesis using * round64_pos_repr [of m e] by simp
qed

lemma round64_pos_nonneg:
  assumes "0 < q" and "round64_pos q = Fin r"
  shows "0 \<le> r"
proof -
  obtain m e where "r = of_int m * 2 powi e" "0 \<le> m"
    using round64_pos_form [OF assms] by blast
  then show ?thesis by simp
qed

lemma round64_pos_cases:
  assumes "0 < q"
  shows "round64_pos q = PInf \<or> (\<exists>r. round64_pos q = Fin r \<and> 0 \<le> r)"
proof (cases "round64_pos q")
  case (Fin r)
  then show ?thesis using round64_pos_nonneg [OF assms Fin] by simp
next
  case PInf
  then show ?thesis by simp
next
  case NInf
  then show ?thesis by (simp add: round64_pos_def Let_def split: if_splits)
next
  case NaN
  then show ?thesis by (simp add: round64_pos_def Let_def split: if_splits)
qed

lemma round64_idem:
  assumes "round64 q = Fin r"
  shows "round64 r = Fin r"
proof -
  consider "q = 0" | "0 < q" | "q < 0" by linarith
  then show ?thesis
  proof cases
    case 1
    then show ?thesis using assms by (simp add: round64_def)
  next
    case 2
    then have p: "round64_pos q = Fin r" using assms by (simp add: round64_def)
    show ?thesis
    proof (cases "r = 0")
      case True
      then show ?thesis by (simp add: round64_def)
    next
      case False
      then have "0 < r" using round64_pos_nonneg [OF 2 p] by simp
      then show ?thesis using round64_pos_idem [OF 2 p False] by (simp add: round64_def)
    qed
  next
    case 3
    then have q: "0 < - q" by simp
    have "fneg (round64_pos (- q)) = Fin r" using assms 3 by (simp add: round64_def)
    then have p: "round64_pos (- q) = Fin (- r)"
      by (cases "round64_pos (- q)") simp_all
    show ?thesis
    proof (cases "r = 0")
      case True
      then show ?thesis by (simp add: round64_def)
    next
      case False
      then have nz: "- r \<noteq> 0" by simp
      then have "r < 0" using round64_pos_nonneg [OF q p] by simp
      then show ?thesis using round64_pos_idem [OF q p nz] by (simp add: round64_def)
    qed
  qed
qed

lemma is_double_round64: "is_double (round64 q)"
  by (cases "round64 q") (simp_all add: is_double_def round64_idem)

lemma is_double_fadd: "is_double (fadd x y)"
  by (cases x; cases y) (simp_all add: is_double_round64, simp_all add: is_double_def)

lemma is_double_fmul: "is_double (fmul x y)"
  by (cases x; cases y) (simp_all add: is_double_round64, simp_all add: is_double_def)

lemma fadd_zero_right:
  assumes "is_double x"
  shows "fadd x (Fin 0) = x"
  using assms by (cases x) (simp_all add: is_double_def)

lemma fadd_zero_left:
  assumes "is_double x"
  shows "fadd (Fin 0) x = x"
  using assms by (cases x) (simp_all add: is_double_def)

lemma fsub_zero:
  assumes "is_double x"
  shows "fsub x (Fin 0) = x"
  using assms by (simp add: fsub_def fadd_zero_right)

lemma fadd_commute: "fadd x y = fadd y x"
  by (cases x; cases y) (simp_all add: add.commute)

lemma py_sum_Nil: "py_sum [] = Fin 0"
  by (simp add: py_sum_def)

lemma py_sum_single: "is_double x \<Longrightarrow> py_sum [x] = x"
  by (simp add: py_sum_def fadd_zero_left)

lemma rhe_near:
  assumes "\<bar>x - of_int m\<bar> < 1 / 2"
  shows "round_half_even x = m"
proof (cases "of_int m \<le> x")
  case True
  then have "\<lfloor>x\<rfloor> = m" using assms by linarith
  then show ?thesis using assms True by (simp add: round_half_even_def Let_def)
next
  case False
  then have "\<lfloor>x\<rfloor> = m - 1" using assms by linarith
  then show ?thesis using assms False by (simp add: round_half_even_def Let_def)
qed

lemma rhe_tie:
  assumes "x = of_int m + 1 / 2"
  shows "round_half_even x = (if even m then m else m + 1)"
proof -
  have "\<lfloor>x\<rfloor> = m" using assms by linarith
  then show ?thesis using assms by (simp add: round_half_even_def Let_def)
qed

lemma round64_near:
  assumes "2 powi k \<le> q" and "q < 2 powi (k + 1)"
    and "\<bar>q / 2 powi (max (k - 52) (- 1074)) - of_int m\<bar> < 1 / 2"
    and "r = of_int m * 2 powi (max (k - 52) (- 1074))"
    and "r < 2 powi 1024"
  shows "round64 q = Fin r"
proof -
  have q: "0 < q" using assms(1) zero_less_power_int [of "2::rat" k] by linarith
  have "ilog2 q = k" using assms(1,2) by (rule ilog2_unique)
  moreover have "round_half_even (q / 2 powi (max (k - 52) (- 1074))) = m"
    using assms(3) by (rule rhe_near)
  ultimately show ?thesis using assms(4,5) q by (simp add: round64_def round64_pos_def Let_def)
qed

lemma round64_tie:
  assumes "2 powi k \<le> q" and "q < 2 powi (k + 1)"
    and "q / 2 powi (max (k - 52) (- 1074)) = of_int m + 1 / 2"
    and "r = of_int (if even m then m else m + 1) * 2 powi (max (k - 52) (- 1074))"
    and "r < 2 powi 1024"
  shows "round64 q = Fin r"
proof -
  have q: "0 < q" using assms(1) zero_less_power_int [of "2::rat" k] by linarith
  have "ilog2 q = k" using assms(1,2) by (rule ilog2_unique)
  moreover have "round_half_even (q / 2 powi (max (k - 52) (- 1074))) = (if even m then m else m + 1)"
    using assms(3) by (rule rhe_tie)
  ultimately show ?thesis using assms(4,5) q by (simp add: round64_def round64_pos_def Let_def)
qed

lemma round64_minus: "round64 (- q) = fneg (round64 q)"
proof -
  have "fneg (fneg x) = x" for x by (cases x) simp_all
  then show ?thesis by (simp add: round64_def)
qed

lemma round64_of_nat_exact:
  assumes "n \<le> 2 ^ 53"
  shows "round64 (of_nat n) = Fin (of_nat n)"
proof (cases "n = 0")
  case True
  then show ?thesis by (simp add: round64_def)
next
  case False
  then have m: "0 < int n" by simp
  have le: "int n \<le> 2 ^ 53" using assms by (simp add: le_nat_iff flip: of_nat_le_iff)
  have "(of_int (int n) :: rat) \<le> of_int (2 ^ 53)" using le by (rule iffD2 [OF of_int_le_iff])
  then have "(of_int (int n) :: rat) * 2 powi 0 < 2 powi 1024" by simp
  then have "round64_pos (of_int (int n) * 2 powi 0) = Fin (of_int (int n) * 2 powi 0)"
    using m le by (intro round64_pos_repr) simp_all
  then show ?thesis using False by (simp add: round64_def)
qed

lemma round64_numeral_exact:
  assumes "numeral w \<le> (2 ^ 53 :: nat)"
  shows "round64 (numeral w) = Fin (numeral w)"
  using round64_of_nat_exact [OF assms] by simp

lemma round64_zero: "round64 0 = Fin 0"
  by (simp add: round64_def)

lemma aliquota_PIS: "py_decimal 65 4 = Fin (7493989779944505 / 1152921504606846976)"
  unfolding py_decimal_def
  by (rule round64_near [where k = "- 8" and m = 7493989779944505])
     (simp_all add: power_int_minus_divide)

lemma aliquota_COFINS: "py_decimal 3 2 = Fin (1080863910568919 / 36028797018963968)"
  unfolding py_decimal_def
  by (rule round64_near [where k = "- 6" and m = 8646911284551352])
     (simp_all add: power_int_minus_divide)

lemma aliquota_IRPJ: "py_decimal 12 3 = Fin (3458764513820541 / 288230376151711744)"
  unfolding py_decimal_def
  by (rule round64_near [where k = "- 7" and m = 6917529027641082])
     (simp_all add: power_int_minus_divide)

lemma aliquota_CSLL: "py_decimal 108 4 = Fin (3112888062438487 / 288230376151711744)"
  unfolding py_decimal_def
  by (rule round64_near [where k = "- 7" and m = 6225776124876974])
     (simp_all add: power_int_minus_divide)

lemma aliquota_ISS: "py_decimal 5 2 = Fin (3602879701896397 / 72057594037927936)"
  unfolding py_decimal_def
  by (rule round64_near [where k = "- 5" and m = 7205759403792794])
     (simp_all add: power_int_minus_divide)

lemma digit_chars:
  "digit_char 0 = CHR ''0''" "digit_char (Suc 0) = CHR ''1''" "digit_char 2 = CHR ''2''"
  "digit_char 3 = CHR ''3''" "digit_char 4 = CHR ''4''" "digit_char 5 = CHR ''5''"
  "digit_char 6 = CHR ''6''" "digit_char 7 = CHR ''7''" "digit_char 8 = CHR ''8''"
  "digit_char 9 = CHR ''9''"
  by code_simp+

lemma pct_PIS: "format_percent2 (py_decimal 65 4) = ''0.65%''"
proof -
  have v: "fmul (Fin (7493989779944505 / 1152921504606846976)) (Fin 100) = Fin (5854679515581645 / 9007199254740992)"
    unfolding fmul.simps
    by (rule round64_near [where k = "- 1" and m = 5854679515581645])
       (simp_all add: power_int_minus_divide)
  have n: "round_half_even (\<bar>(5854679515581645 / 9007199254740992)\<bar> * 100) = 65"
    by (rule rhe_near) simp
  show ?thesis
    unfolding aliquota_PIS format_percent2_def v double.case format_fixed2_def n Let_def
    by (simp add: digit_chars)
qed

lemma pct_COFINS: "format_percent2 (py_decimal 3 2) = ''3.00%''"
proof -
  have v: "fmul (Fin (1080863910568919 / 36028797018963968)) (Fin 100) = Fin 3"
    unfolding fmul.simps
    by (rule round64_near [where k = "1" and m = 6755399441055744])
       (simp_all add: power_int_minus_divide)
  have n: "round_half_even (\<bar>3\<bar> * 100) = 300"
    by (rule rhe_near) simp
  show ?thesis
    unfolding aliquota_COFINS format_percent2_def v double.case format_fixed2_def n Let_def
    by (simp add: digit_chars)
qed

lemma pct_IRPJ: "format_percent2 (py_decimal 12 3) = ''1.20%''"
proof -
  have v: "fmul (Fin (3458764513820541 / 288230376151711744)) (Fin 100) = Fin (5404319552844595 / 4503599627370496)"
    unfolding fmul.simps
    by (rule round64_near [where k = "0" and m = 5404319552844595])
       (simp_all add: power_int_minus_divide)
  have n: "round_half_even (\<bar>(5404319552844595 / 4503599627370496)\<bar> * 100) = 120"
    by (rule rhe_near) simp
  show ?thesis
    unfolding aliquota_IRPJ format_percent2_def v double.case format_fixed2_def n Let_def
    by (simp add: digit_chars)
qed

lemma pct_CSLL: "format_percent2 (py_decimal 108 4) = ''1.08%''"
proof -
  have v: "fmul (Fin (3112888062438487 / 288230376151711744)) (Fin 100) = Fin (607985949695017 / 562949953421312)"
    unfolding fmul.simps
    by (rule round64_near [where k = "0" and m = 4863887597560136])
       (simp_all add: power_int_minus_divide)
  have n: "round_half_even (\<bar>(607985949695017 / 562949953421312)\<bar> * 100) = 108"
    by (rule rhe_near) simp
  show ?thesis
    unfolding aliquota_CSLL format_percent2_def v double.case format_fixed2_def n Let_def
    by (simp add: digit_chars)
qed

lemma pct_ISS: "format_percent2 (py_decimal 5 2) = ''5.00%''"
proof -
  have v: "fmul (Fin (3602879701896397 / 72057594037927936)) (Fin 100) = Fin 5"
    unfolding fmul.simps
    by (rule round64_near [where k = "2" and m = 5629499534213120])
       (simp_all add: power_int_minus_divide)
  have n: "round_half_even (\<bar>5\<bar> * 100) = 500"
    by (rule rhe_near) simp
  show ?thesis
    unfolding aliquota_ISS format_percent2_def v double.case format_fixed2_def n Let_def
    by (simp add: digit_chars)
qed

lemma resultado_final_lines:
  "fst (calcular_impostos_finais dados fat) =
     [''PIS'' \<mapsto> linha_imposto (total_retencoes dados) fat ''PIS'' (py_decimal 65 4),
      ''COFINS'' \<mapsto> linha_imposto (total_retencoes dados) fat ''COFINS'' (py_decimal 3 2),
      ''IRPJ'' \<mapsto> linha_imposto (total_retencoes dados) fat ''IRPJ'' (py_decimal 12 3),
      ''CSLL'' \<mapsto> linha_imposto (total_retencoes dados) fat ''CSLL'' (py_decimal 108 4),
      ''ISS'' \<mapsto> linha_imposto (total_retencoes dados) fat ''ISS'' (py_decimal 5 2)]"
  by (simp add: calcular_impostos_finais_def ALIQUOTAS_def Let_def)

lemma inss_total: "snd (calcular_impostos_finais dados fat) = py_sum (map INSS_Retido dados)"
  by (simp add: calcular_impostos_finais_def total_retencoes_def dict_get_def Let_def)

lemma total_retido_keys:
  "dict_get (total_retencoes dados) ''PIS'' (Fin 0) = py_sum (map PIS_Retido dados)"
  "dict_get (total_retencoes dados) ''COFINS'' (Fin 0) = py_sum (map COFINS_Retido dados)"
  "dict_get (total_retencoes dados) ''CSLL'' (Fin 0) = py_sum (map CSLL_Retido dados)"
  "dict_get (total_retencoes dados) ''IRRF'' (Fin 0) = py_sum (map IRRF_Retido dados)"
  "dict_get (total_retencoes dados) ''INSS'' (Fin 0) = py_sum (map INSS_Retido dados)"
  "dict_get (total_retencoes dados) ''ISS'' (Fin 0) = py_sum (map ISS_Retido dados)"
  by (simp_all add: total_retencoes_def dict_get_def)

lemma linha_PIS:
  "linha_imposto (total_retencoes dados) fat ''PIS'' (py_decimal 65 4) =
     \<lparr>Aliquota = ''0.65%'', Valor_Bruto_a_Pagar = fmul fat (py_decimal 65 4),
      Total_Retido = py_sum (map PIS_Retido dados),
      Valor_Liquido_a_Pagar =
        fsub (fmul fat (py_decimal 65 4)) (py_sum (map PIS_Retido dados))\<rparr>"
  by (simp add: linha_imposto_def Let_def total_retido_keys pct_PIS)

lemma linha_COFINS:
  "linha_imposto (total_retencoes dados) fat ''COFINS'' (py_decimal 3 2) =
     \<lparr>Aliquota = ''3.00%'', Valor_Bruto_a_Pagar = fmul fat (py_decimal 3 2),
      Total_Retido = py_sum (map COFINS_Retido dados),
      Valor_Liquido_a_Pagar =
        fsub (fmul fat (py_decimal 3 2)) (py_sum (map COFINS_Retido dados))\<rparr>"
  by (simp add: linha_imposto_def Let_def total_retido_keys pct_COFINS)

lemma linha_IRPJ:
  "linha_imposto (total_retencoes dados) fat ''IRPJ'' (py_decimal 12 3) =
     \<lparr>Aliquota = ''1.20%'', Valor_Bruto_a_Pagar = fmul fat (py_decimal 12 3),
      Total_Retido = py_sum (map IRRF_Retido dados),
      Valor_Liquido_a_Pagar =
        fsub (fmul fat (py_decimal 12 3)) (py_sum (map IRRF_Retido dados))\<rparr>"
  by (simp add: linha_imposto_def Let_def total_retido_keys pct_IRPJ)

lemma linha_CSLL:
  "linha_imposto (total_retencoes dados) fat ''CSLL'' (py_decimal 108 4) =
     \<lparr>Aliquota = ''1.08%'', Valor_Bruto_a_Pagar = fmul fat (py_decimal 108 4),
      Total_Retido = py_sum (map CSLL_Retido dados),
      Valor_Liquido_a_Pagar =
        fsub (fmul fat (py_decimal 108 4)) (py_sum (map CSLL_Retido dados))\<rparr>"
  by (simp add: linha_imposto_def Let_def total_retido_keys pct_CSLL)

lemma linha_ISS:
  "linha_imposto (total_retencoes dados) fat ''ISS'' (py_decimal 5 2) =
     \<lparr>Aliquota = ''5.00%'', Valor_Bruto_a_Pagar = fmul fat (py_decimal 5 2),
      Total_Retido = py_sum (map ISS_Retido dados),
      Valor_Liquido_a_Pagar =
        fsub (fmul fat (py_decimal 5 2)) (py_sum (map ISS_Retido dados))\<rparr>"
  by (simp add: linha_imposto_def Let_def total_retido_keys pct_ISS)

lemmas linhas = linha_PIS linha_COFINS linha_IRPJ linha_CSLL linha_ISS

lemma bruto_PIS_100000: "fmul (Fin 100000) (py_decimal 65 4) = Fin 650"
  unfolding aliquota_PIS fmul.simps
  by (rule round64_near [where k = "9" and m = 5717460464435200])
     (simp_all add: power_int_minus_divide)

lemma bruto_COFINS_100000: "fmul (Fin 100000) (py_decimal 3 2) = Fin 3000"
  unfolding aliquota_COFINS fmul.simps
  by (rule round64_near [where k = "11" and m = 6597069766656000])
     (simp_all add: power_int_minus_divide)

lemma bruto_IRPJ_100000: "fmul (Fin 100000) (py_decimal 12 3) = Fin 1200"
  unfolding aliquota_IRPJ fmul.simps
  by (rule round64_near [where k = "10" and m = 5277655813324800])
     (simp_all add: power_int_minus_divide)

lemma bruto_CSLL_100000: "fmul (Fin 100000) (py_decimal 108 4) = Fin 1080"
  unfolding aliquota_CSLL fmul.simps
  by (rule round64_near [where k = "10" and m = 4749890231992320])
     (simp_all add: power_int_minus_divide)

lemma bruto_ISS_100000: "fmul (Fin 100000) (py_decimal 5 2) = Fin 5000"
  unfolding aliquota_ISS fmul.simps
  by (rule round64_near [where k = "12" and m = 5497558138880000])
     (simp_all add: power_int_minus_divide)

lemma bruto_PIS_1000: "fmul (Fin 1000) (py_decimal 65 4) = Fin (13 / 2)"
  unfolding aliquota_PIS fmul.simps
  by (rule round64_near [where k = "2" and m = 7318349394477056])
     (simp_all add: power_int_minus_divide)

lemma bruto_COFINS_1000: "fmul (Fin 1000) (py_decimal 3 2) = Fin 30"
  unfolding aliquota_COFINS fmul.simps
  by (rule round64_near [where k = "4" and m = 8444249301319680])
     (simp_all add: power_int_minus_divide)

lemma bruto_IRPJ_1000: "fmul (Fin 1000) (py_decimal 12 3) = Fin 12"
  unfolding aliquota_IRPJ fmul.simps
  by (rule round64_near [where k = "3" and m = 6755399441055744])
     (simp_all add: power_int_minus_divide)

lemma bruto_CSLL_1000: "fmul (Fin 1000) (py_decimal 108 4) = Fin (3039929748475085 / 281474976710656)"
  unfolding aliquota_CSLL fmul.simps
  by (rule round64_near [where k = "3" and m = 6079859496950170])
     (simp_all add: power_int_minus_divide)

lemma bruto_ISS_1000: "fmul (Fin 1000) (py_decimal 5 2) = Fin 50"
  unfolding aliquota_ISS fmul.simps
  by (rule round64_near [where k = "5" and m = 7036874417766400])
     (simp_all add: power_int_minus_divide)

lemma py_sum_exemplo:
  "py_sum (map PIS_Retido [nota_exemplo]) = Fin 10"
  "py_sum (map COFINS_Retido [nota_exemplo]) = Fin 20"
  "py_sum (map CSLL_Retido [nota_exemplo]) = Fin 5"
  "py_sum (map IRRF_Retido [nota_exemplo]) = Fin 15"
  "py_sum (map INSS_Retido [nota_exemplo]) = Fin 8"
  "py_sum (map ISS_Retido [nota_exemplo]) = Fin 50"
  by (simp_all add: py_sum_def nota_exemplo_def round64_numeral_exact)

lemma liquido_exemplo:
  "fsub (Fin 650) (Fin 10) = Fin 640"
  "fsub (Fin 3000) (Fin 20) = Fin 2980"
  "fsub (Fin 1200) (Fin 15) = Fin 1185"
  "fsub (Fin 1080) (Fin 5) = Fin 1075"
  "fsub (Fin 5000) (Fin 50) = Fin 4950"
  by (simp_all add: fsub_def round64_numeral_exact)

lemma calcular_exemplo:
  "calcular_impostos_finais [nota_exemplo] (Fin 100000) =
     ([''PIS'' \<mapsto> \<lparr>Aliquota = ''0.65%'', Valor_Bruto_a_Pagar = Fin 650, Total_Retido = Fin 10,
                    Valor_Liquido_a_Pagar = Fin 640\<rparr>,
       ''COFINS'' \<mapsto> \<lparr>Aliquota = ''3.00%'', Valor_Bruto_a_Pagar = Fin 3000, Total_Retido = Fin 20,
                    Valor_Liquido_a_Pagar = Fin 2980\<rparr>,
       ''IRPJ'' \<mapsto> \<lparr>Aliquota = ''1.20%'', Valor_Bruto_a_Pagar = Fin 1200, Total_Retido = Fin 15,
                    Valor_Liquido_a_Pagar = Fin 1185\<rparr>,
       ''CSLL'' \<mapsto> \<lparr>Aliquota = ''1.08%'', Valor_Bruto_a_Pagar = Fin 1080, Total_Retido = Fin 5,
                    Valor_Liquido_a_Pagar = Fin 1075\<rparr>,
       ''ISS'' \<mapsto> \<lparr>Aliquota = ''5.00%'', Valor_Bruto_a_Pagar = Fin 5000, Total_Retido = Fin 50,
                    Valor_Liquido_a_Pagar = Fin 4950\<rparr>],
      Fin 8)"
proof (rule prod_eqI)
  show "fst (calcular_impostos_finais [nota_exemplo] (Fin 100000)) = fst
     ([''PIS'' \<mapsto> \<lparr>Aliquota = ''0.65%'', Valor_Bruto_a_Pagar = Fin 650, Total_Retido = Fin 10,
                    Valor_Liquido_a_Pagar = Fin 640\<rparr>,
       ''COFINS'' \<mapsto> \<lparr>Aliquota = ''3.00%'', Valor_Bruto_a_Pagar = Fin 3000, Total_Retido = Fin 20,
                    Valor_Liquido_a_Pagar = Fin 2980\<rparr>,
       ''IRPJ'' \<mapsto> \<lparr>Aliquota = ''1.20%'', Valor_Bruto_a_Pagar = Fin 1200, Total_Retido = Fin 15,
                    Valor_Liquido_a_Pagar = Fin 1185\<rparr>,
       ''CSLL'' \<mapsto> \<lparr>Aliquota = ''1.08%'', Valor_Bruto_a_Pagar = Fin 1080, Total_Retido = Fin 5,
                    Valor_Liquido_a_Pagar = Fin 1075\<rparr>,
       ''ISS'' \<mapsto> \<lparr>Aliquota = ''5.00%'', Valor_Bruto_a_Pagar = Fin 5000, Total_Retido = Fin 50,
                    Valor_Liquido_a_Pagar = Fin 4950\<rparr>],
      Fin 8 :: double)"
    unfolding resultado_final_lines linhas py_sum_exemplo
      bruto_PIS_100000 bruto_COFINS_100000 bruto_IRPJ_100000 bruto_CSLL_100000 bruto_ISS_100000
      liquido_exemplo fst_conv
    by (rule refl)
  show "snd (calcular_impostos_finais [nota_exemplo] (Fin 100000)) = snd
     ([''PIS'' \<mapsto> \<lparr>Aliquota = ''0.65%'', Valor_Bruto_a_Pagar = Fin 650, Total_Retido = Fin 10,
                    Valor_Liquido_a_Pagar = Fin 640\<rparr>,
       ''COFINS'' \<mapsto> \<lparr>Aliquota = ''3.00%'', Valor_Bruto_a_Pagar = Fin 3000, Total_Retido = Fin 20,
                    Valor_Liquido_a_Pagar = Fin 2980\<rparr>,
       ''IRPJ'' \<mapsto> \<lparr>Aliquota = ''1.20%'', Valor_Bruto_a_Pagar = Fin 1200, Total_Retido = Fin 15,
                    Valor_Liquido_a_Pagar = Fin 1185\<rparr>,
       ''CSLL'' \<mapsto> \<lparr>Aliquota = ''1.08%'', Valor_Bruto_a_Pagar = Fin 1080, Total_Retido = Fin 5,
                    Valor_Liquido_a_Pagar = Fin 1075\<rparr>,
       ''ISS'' \<mapsto> \<lparr>Aliquota = ''5.00%'', Valor_Bruto_a_Pagar = Fin 5000, Total_Retido = Fin 50,
                    Valor_Liquido_a_Pagar = Fin 4950\<rparr>],
      Fin 8 :: double)"
    unfolding inss_total py_sum_exemplo snd_conv by (rule refl)
qed

lemma fsub_fmul_zero: "fsub (fmul x y) (Fin 0) = fmul x y"
  by (rule fsub_zero) (rule is_double_fmul)

lemma calcular_vazio:
  "calcular_impostos_finais [] fat =
     ([''PIS'' \<mapsto> \<lparr>Aliquota = ''0.65%'', Valor_Bruto_a_Pagar = fmul fat (py_decimal 65 4),
                    Total_Retido = Fin 0, Valor_Liquido_a_Pagar = fmul fat (py_decimal 65 4)\<rparr>,
       ''COFINS'' \<mapsto> \<lparr>Aliquota = ''3.00%'', Valor_Bruto_a_Pagar = fmul fat (py_decimal 3 2),
                    Total_Retido = Fin 0, Valor_Liquido_a_Pagar = fmul fat (py_decimal 3 2)\<rparr>,
       ''IRPJ'' \<mapsto> \<lparr>Aliquota = ''1.20%'', Valor_Bruto_a_Pagar = fmul fat (py_decimal 12 3),
                    Total_Retido = Fin 0, Valor_Liquido_a_Pagar = fmul fat (py_decimal 12 3)\<rparr>,
       ''CSLL'' \<mapsto> \<lparr>Aliquota = ''1.08%'', Valor_Bruto_a_Pagar = fmul fat (py_decimal 108 4),
                    Total_Retido = Fin 0, Valor_Liquido_a_Pagar = fmul fat (py_decimal 108 4)\<rparr>,
       ''ISS'' \<mapsto> \<lparr>Aliquota = ''5.00%'', Valor_Bruto_a_Pagar = fmul fat (py_decimal 5 2),
                    Total_Retido = Fin 0, Valor_Liquido_a_Pagar = fmul fat (py_decimal 5 2)\<rparr>],
      Fin 0)"
proof -
  have "fst (calcular_impostos_finais [] fat) =
     [''PIS'' \<mapsto> \<lparr>Aliquota = ''0.65%'', Valor_Bruto_a_Pagar = fmul fat (py_decimal 65 4),
                    Total_Retido = Fin 0, Valor_Liquido_a_Pagar = fmul fat (py_decimal 65 4)\<rparr>,
       ''COFINS'' \<mapsto> \<lparr>Aliquota = ''3.00%'', Valor_Bruto_a_Pagar = fmul fat (py_decimal 3 2),
                    Total_Retido = Fin 0, Valor_Liquido_a_Pagar = fmul fat (py_decimal 3 2)\<rparr>,
       ''IRPJ'' \<mapsto> \<lparr>Aliquota = ''1.20%'', Valor_Bruto_a_Pagar = fmul fat (py_decimal 12 3),
                    Total_Retido = Fin 0, Valor_Liquido_a_Pagar = fmul fat (py_decimal 12 3)\<rparr>,
       ''CSLL'' \<mapsto> \<lparr>Aliquota = ''1.08%'', Valor_Bruto_a_Pagar = fmul fat (py_decimal 108 4),
                    Total_Retido = Fin 0, Valor_Liquido_a_Pagar = fmul fat (py_decimal 108 4)\<rparr>,
       ''ISS'' \<mapsto> \<lparr>Aliquota = ''5.00%'', Valor_Bruto_a_Pagar = fmul fat (py_decimal 5 2),
                    Total_Retido = Fin 0, Valor_Liquido_a_Pagar = fmul fat (py_decimal 5 2)\<rparr>]"
    unfolding resultado_final_lines linhas list.map py_sum_Nil fsub_fmul_zero by (rule refl)
  moreover have "snd (calcular_impostos_finais [] fat) = Fin 0"
    unfolding inss_total list.map py_sum_Nil by (rule refl)
  ultimately show ?thesis by (simp add: prod_eq_iff)
qed

lemma so_INSS_difere_maps:
  assumes "list_all2 so_INSS_difere xs ys"
  shows "map PIS_Retido xs = map PIS_Retido ys \<and> map COFINS_Retido xs = map COFINS_Retido ys
     \<and> map CSLL_Retido xs = map CSLL_Retido ys \<and> map IRRF_Retido xs = map IRRF_Retido ys
     \<and> map ISS_Retido xs = map ISS_Retido ys"
  using assms
proof (induction rule: list_all2_induct)
  case Nil
  then show ?case by simp
next
  case (Cons a xs b ys)
  from Cons.hyps(1) have "b = a\<lparr>INSS_Retido := INSS_Retido b\<rparr>" by (simp add: so_INSS_difere_def)
  then have "PIS_Retido b = PIS_Retido a \<and> COFINS_Retido b = COFINS_Retido a
     \<and> CSLL_Retido b = CSLL_Retido a \<and> IRRF_Retido b = IRRF_Retido a \<and> ISS_Retido b = ISS_Retido a"
    by (cases a, cases b) simp
  with Cons.IH show ?case by simp
qed

lemma resumo_ignora_INSS:
  assumes "list_all2 so_INSS_difere xs ys"
  shows "fst (calcular_impostos_finais xs fat) = fst (calcular_impostos_finais ys fat)"
  unfolding resultado_final_lines linhas using so_INSS_difere_maps [OF assms] by simp

lemma decimal_65_1: "py_decimal 65 1 = Fin (13 / 2)"
  unfolding py_decimal_def
  by (rule round64_near [where k = "2" and m = 7318349394477056])
     (simp_all add: power_int_minus_divide)

lemma decimal_108_1: "py_decimal 108 1 = Fin (3039929748475085 / 281474976710656)"
  unfolding py_decimal_def
  by (rule round64_near [where k = "3" and m = 6079859496950170])
     (simp_all add: power_int_minus_divide)

text \<open>
  Claim C1. For revenue 100000.00 and the single withholding record with PIS 10, COFINS 20,
  CSLL 5, IRRF 15, INSS 8 and ISS 50, the calculator returns PIS gross 650 and net 640, COFINS
  gross 3000 and net 2980, IRPJ gross 1200 and net 1185 (its withheld total is the IRRF sum 15),
  CSLL gross 1080 and net 1075, ISS gross 5000 and net 4950, and the INSS total 8. All values
  are exact binary64 results.
\<close>

theorem C1_end_to_end_example:
  "calcular_impostos_finais
     [\<lparr>PIS_Retido = Fin 10, COFINS_Retido = Fin 20, CSLL_Retido = Fin 5, IRRF_Retido = Fin 15,
       INSS_Retido = Fin 8, ISS_Retido = Fin 50\<rparr>] (Fin 100000) =
     ([''PIS'' \<mapsto> \<lparr>Aliquota = ''0.65%'', Valor_Bruto_a_Pagar = Fin 650, Total_Retido = Fin 10,
                    Valor_Liquido_a_Pagar = Fin 640\<rparr>,
       ''COFINS'' \<mapsto> \<lparr>Aliquota = ''3.00%'', Valor_Bruto_a_Pagar = Fin 3000, Total_Retido = Fin 20,
                    Valor_Liquido_a_Pagar = Fin 2980\<rparr>,
       ''IRPJ'' \<mapsto> \<lparr>Aliquota = ''1.20%'', Valor_Bruto_a_Pagar = Fin 1200, Total_Retido = Fin 15,
                    Valor_Liquido_a_Pagar = Fin 1185\<rparr>,
       ''CSLL'' \<mapsto> \<lparr>Aliquota = ''1.08%'', Valor_Bruto_a_Pagar = Fin 1080, Total_Retido = Fin 5,
                    Valor_Liquido_a_Pagar = Fin 1075\<rparr>,
       ''ISS'' \<mapsto> \<lparr>Aliquota = ''5.00%'', Valor_Bruto_a_Pagar = Fin 5000, Total_Retido = Fin 50,
                    Valor_Liquido_a_Pagar = Fin 4950\<rparr>],
      Fin 8)"
  using calcular_exemplo unfolding nota_exemplo_def .

text \<open>
  Claim C2. For every record sequence and revenue, the IRPJ line's withheld total is the sum of
  the IRRF amounts of all records, the PIS, COFINS, CSLL and ISS lines read the sum of their
  own-named amounts, and on every line the net is the gross minus that withheld total.
\<close>

theorem C2_withheld_key_aliasing:
  "map_option Total_Retido (fst (calcular_impostos_finais dados fat) ''IRPJ'') =
     Some (py_sum (map IRRF_Retido dados))
   \<and> map_option Total_Retido (fst (calcular_impostos_finais dados fat) ''PIS'') =
     Some (py_sum (map PIS_Retido dados))
   \<and> map_option Total_Retido (fst (calcular_impostos_finais dados fat) ''COFINS'') =
     Some (py_sum (map COFINS_Retido dados))
   \<and> map_option Total_Retido (fst (calcular_impostos_finais dados fat) ''CSLL'') =
     Some (py_sum (map CSLL_Retido dados))
   \<and> map_option Total_Retido (fst (calcular_impostos_finais dados fat) ''ISS'') =
     Some (py_sum (map ISS_Retido dados))
   \<and> (\<forall>imposto l. fst (calcular_impostos_finais dados fat) imposto = Some l \<longrightarrow>
          Valor_Liquido_a_Pagar l = fsub (Valor_Bruto_a_Pagar l) (Total_Retido l))"
  unfolding resultado_final_lines linhas by (simp split: if_splits)

theorem C2_withheld_key_aliasing_witness:
  "fst (calcular_impostos_finais [nota_exemplo] (Fin 100000)) ''IRPJ'' =
     Some \<lparr>Aliquota = ''1.20%'', Valor_Bruto_a_Pagar = Fin 1200, Total_Retido = Fin 15,
           Valor_Liquido_a_Pagar = Fin 1185\<rparr>
   \<and> map_option Total_Retido (fst (calcular_impostos_finais [nota_exemplo] (Fin 100000)) ''IRPJ'') =
     Some (py_sum (map IRRF_Retido [nota_exemplo]))
   \<and> Fin 1185 = fsub (Fin 1200) (Fin 15)"
proof -
  have h: "fst (calcular_impostos_finais [nota_exemplo] (Fin 100000)) ''IRPJ'' =
     Some \<lparr>Aliquota = ''1.20%'', Valor_Bruto_a_Pagar = Fin 1200, Total_Retido = Fin 15,
           Valor_Liquido_a_Pagar = Fin 1185\<rparr>"
    by (simp add: calcular_exemplo)
  note t = C2_withheld_key_aliasing [of "[nota_exemplo]" "Fin 100000"]
  from t have a: "map_option Total_Retido
      (fst (calcular_impostos_finais [nota_exemplo] (Fin 100000)) ''IRPJ'') =
     Some (py_sum (map IRRF_Retido [nota_exemplo]))"
    by (rule conjunct1)
  from t have "\<forall>imposto l.
      fst (calcular_impostos_finais [nota_exemplo] (Fin 100000)) imposto = Some l \<longrightarrow>
      Valor_Liquido_a_Pagar l = fsub (Valor_Bruto_a_Pagar l) (Total_Retido l)"
    by blast
  with h have "Valor_Liquido_a_Pagar
      \<lparr>Aliquota = ''1.20%'', Valor_Bruto_a_Pagar = Fin 1200, Total_Retido = Fin 15,
       Valor_Liquido_a_Pagar = Fin 1185\<rparr> =
     fsub (Valor_Bruto_a_Pagar
      \<lparr>Aliquota = ''1.20%'', Valor_Bruto_a_Pagar = Fin 1200, Total_Retido = Fin 15,
       Valor_Liquido_a_Pagar = Fin 1185\<rparr>) (Total_Retido
      \<lparr>Aliquota = ''1.20%'', Valor_Bruto_a_Pagar = Fin 1200, Total_Retido = Fin 15,
       Valor_Liquido_a_Pagar = Fin 1185\<rparr>)"
    by blast
  then have c: "Fin 1185 = fsub (Fin 1200) (Fin 15)" by simp
  show ?thesis by (intro conjI) (rule h, rule a, rule c)
qed

text \<open>
  Claim C7. For every revenue value, the calculator applied to the empty record sequence
  returns, for the five rated kinds with the fixed rates PIS 0.65%, COFINS 3%, IRPJ 1.2%,
  CSLL 1.08% and ISS 5%, withheld total 0, gross equal to revenue times the rate and net equal
  to gross, and the INSS total is 0. At revenue 1000 the five gross amounts are the doubles
  6.5, 30, 12, 10.8 and 50.
\<close>

theorem C7_empty_records:
  "calcular_impostos_finais [] fat =
     ([''PIS'' \<mapsto> \<lparr>Aliquota = ''0.65%'', Valor_Bruto_a_Pagar = fmul fat (py_decimal 65 4),
                    Total_Retido = Fin 0, Valor_Liquido_a_Pagar = fmul fat (py_decimal 65 4)\<rparr>,
       ''COFINS'' \<mapsto> \<lparr>Aliquota = ''3.00%'', Valor_Bruto_a_Pagar = fmul fat (py_decimal 3 2),
                    Total_Retido = Fin 0, Valor_Liquido_a_Pagar = fmul fat (py_decimal 3 2)\<rparr>,
       ''IRPJ'' \<mapsto> \<lparr>Aliquota = ''1.20%'', Valor_Bruto_a_Pagar = fmul fat (py_decimal 12 3),
                    Total_Retido = Fin 0, Valor_Liquido_a_Pagar = fmul fat (py_decimal 12 3)\<rparr>,
       ''CSLL'' \<mapsto> \<lparr>Aliquota = ''1.08%'', Valor_Bruto_a_Pagar = fmul fat (py_decimal 108 4),
                    Total_Retido = Fin 0, Valor_Liquido_a_Pagar = fmul fat (py_decimal 108 4)\<rparr>,
       ''ISS'' \<mapsto> \<lparr>Aliquota = ''5.00%'', Valor_Bruto_a_Pagar = fmul fat (py_decimal 5 2),
                    Total_Retido = Fin 0, Valor_Liquido_a_Pagar = fmul fat (py_decimal 5 2)\<rparr>],
      Fin 0)
   \<and> fmul (Fin 1000) (py_decimal 65 4) = py_decimal 65 1
   \<and> fmul (Fin 1000) (py_decimal 3 2) = Fin 30
   \<and> fmul (Fin 1000) (py_decimal 12 3) = Fin 12
   \<and> fmul (Fin 1000) (py_decimal 108 4) = py_decimal 108 1
   \<and> fmul (Fin 1000) (py_decimal 5 2) = Fin 50"
  using calcular_vazio [of fat] bruto_PIS_1000 bruto_COFINS_1000 bruto_IRPJ_1000 bruto_CSLL_1000
    bruto_ISS_1000 decimal_65_1 decimal_108_1
  by simp

text \<open>
  Claim C10. For every revenue and every two record sequences that differ only in their INSS
  amounts, the calculator returns the same five-kind summary; the INSS amounts reach only the
  separately returned INSS total, which is their sum.
\<close>

theorem C10_inss_only_in_inss_total:
  "list_all2 so_INSS_difere xs ys \<Longrightarrow>
     fst (calcular_impostos_finais xs fat) = fst (calcular_impostos_finais ys fat)
     \<and> snd (calcular_impostos_finais xs fat) = py_sum (map INSS_Retido xs)
     \<and> snd (calcular_impostos_finais ys fat) = py_sum (map INSS_Retido ys)"
  by (simp add: resumo_ignora_INSS inss_total)

theorem C10_inss_only_in_inss_total_witness:
  "list_all2 so_INSS_difere [nota_exemplo] [nota_exemplo\<lparr>INSS_Retido := Fin 99\<rparr>]
   \<and> fst (calcular_impostos_finais [nota_exemplo] (Fin 100000)) =
       fst (calcular_impostos_finais [nota_exemplo\<lparr>INSS_Retido := Fin 99\<rparr>] (Fin 100000))
   \<and> snd (calcular_impostos_finais [nota_exemplo] (Fin 100000)) = Fin 8
   \<and> snd (calcular_impostos_finais [nota_exemplo\<lparr>INSS_Retido := Fin 99\<rparr>] (Fin 100000)) = Fin 99"
proof -
  have h: "list_all2 so_INSS_difere [nota_exemplo] [nota_exemplo\<lparr>INSS_Retido := Fin 99\<rparr>]"
    by (simp add: so_INSS_difere_def)
  have s: "py_sum (map INSS_Retido [nota_exemplo\<lparr>INSS_Retido := Fin 99\<rparr>]) = Fin 99"
    by (simp add: py_sum_def round64_numeral_exact)
  show ?thesis
    using h C10_inss_only_in_inss_total [OF h, of "Fin 100000"] s py_sum_exemplo(5) by simp
qed

end
